theory Spec2Isabelle
  imports Main
begin

section \<open>Per-device configuration\<close>

text \<open>
  The per-camera configuration is the host's key/value store: \<^verbatim>\<open>storage.getItem(k)\<close>
  yields the stored string, or \<^verbatim>\<open>null\<close> when the key is absent. The store is a
  partial map and \<^verbatim>\<open>null\<close> is \<open>None\<close>.
\<close>

type_synonym Storage = "string \<rightharpoonup> string"

definition getItem :: "Storage \<Rightarrow> string \<Rightarrow> string option" where
  "getItem st k = st k"

definition setItem :: "Storage \<Rightarrow> string \<Rightarrow> string \<Rightarrow> Storage" where
  "setItem st k v = st(k \<mapsto> v)"

text \<open>
  JavaScript's \<^verbatim>\<open>a || b\<close> on a string-or-null \<open>a\<close>: \<^verbatim>\<open>null\<close> and the empty string
  are falsy, every other string is truthy and is the result.
\<close>

definition truthy :: "string option \<Rightarrow> bool" where
  "truthy a = (case a of None \<Rightarrow> False | Some s \<Rightarrow> s \<noteq> [])"

definition js_or :: "string option \<Rightarrow> string \<Rightarrow> string" where
  "js_or a b = (case a of None \<Rightarrow> b | Some s \<Rightarrow> if s = [] then b else s)"

text \<open>
  Interpolation \<^verbatim>\<open>${x}\<close> in a template literal converts \<open>x\<close> to a string:
  a string is itself, \<^verbatim>\<open>null\<close> becomes the four characters \<^verbatim>\<open>null\<close>.
\<close>

definition template_str :: "string option \<Rightarrow> string" where
  "template_str a = (case a of None \<Rightarrow> ''null'' | Some s \<Rightarrow> s)"

section \<open>RtspCamera\<close>

text \<open>The empty object literals \<^verbatim>\<open>{}\<close> given for the video and audio capabilities.\<close>

datatype VideoStreamOptions = EmptyVideoOptions

datatype AudioStreamOptions = EmptyAudioOptions

record MediaStreamOptions =
  video :: "VideoStreamOptions option"
  audio :: "AudioStreamOptions option"

definition isAudioDisabled :: "Storage \<Rightarrow> bool" where
  "isAudioDisabled st = (getItem st ''noAudio'' = Some ''true'')"

definition getVideoStreamOptions :: "Storage \<Rightarrow> MediaStreamOptions list" where
  "getVideoStreamOptions st =
     [\<lparr>video = Some EmptyVideoOptions,
       audio = (if isAudioDisabled st then None else Some EmptyAudioOptions)\<rparr>]"

section \<open>RtspSmartCamera: address construction\<close>

definition isAnalogueCamera :: "Storage \<Rightarrow> bool" where
  "isAnalogueCamera st = (getItem st ''isAnalogueCamera'' = Some ''true'')"

definition getRtspChannel :: "Storage \<Rightarrow> string" where
  "getRtspChannel st = js_or (getItem st ''rtspChannel'') ''''"

definition getRtspUrl :: "Storage \<Rightarrow> string option" where
  "getRtspUrl st = getItem st ''rtspUrlOverride''"

definition getRtspUrlParams :: "Storage \<Rightarrow> string" where
  "getRtspUrlParams st = js_or (getItem st ''rtspUrlParams'') ''?transportmode=unicast''"

definition getAnalogueCameraUrl :: "Storage \<Rightarrow> string" where
  "getAnalogueCameraUrl st =
     (let channel = getRtspChannel st;
          url = getRtspUrl st;
          params = getRtspUrlParams st
      in template_str url @ ''/'' @ channel @ ''01/'' @ params)"

definition getRtspUrlOverride :: "Storage \<Rightarrow> string option" where
  "getRtspUrlOverride st =
     (if isAnalogueCamera st \<and> truthy (Some (getRtspChannel st))
      then Some (getAnalogueCameraUrl st)
      else getRtspUrl st)"

text \<open>
  \<^verbatim>\<open>getConstructedStreamUrl\<close> is abstract: each camera family supplies its own. It is a
  parameter of the model, a function of the configuration.
\<close>

definition getStreamUrl :: "(Storage \<Rightarrow> string) \<Rightarrow> Storage \<Rightarrow> string" where
  "getStreamUrl getConstructedStreamUrl st =
     js_or (getRtspUrlOverride st) (getConstructedStreamUrl st)"

text \<open>The configuration of the worked example: an analogue camera on channel 2.\<close>

definition analogue_example :: Storage where
  "analogue_example =
     [''isAnalogueCamera'' \<mapsto> ''true'', ''rtspChannel'' \<mapsto> ''2'',
      ''rtspUrlOverride'' \<mapsto> ''rtsp://host'', ''rtspUrlParams'' \<mapsto> ''?x=1'']"

section \<open>Setting values\<close>

text \<open>
  A setting value is a \<^verbatim>\<open>string | number\<close>, stored as \<^verbatim>\<open>value.toString()\<close>. A string is
  its own text. How a number prints (\<^verbatim>\<open>Number.prototype.toString\<close>) belongs to the
  JavaScript runtime: it is a parameter \<open>numberToString\<close> of every operation that stores or
  shows a value.
\<close>

datatype 'n SettingValue = StringValue string | NumberValue 'n

definition toString :: "('n \<Rightarrow> string) \<Rightarrow> 'n SettingValue \<Rightarrow> string" where
  "toString numberToString v =
     (case v of StringValue s \<Rightarrow> s | NumberValue n \<Rightarrow> numberToString n)"

definition RtspCamera_putSetting ::
  "('n \<Rightarrow> string) \<Rightarrow> string \<Rightarrow> 'n SettingValue \<Rightarrow> Storage \<Rightarrow> Storage" where
  "RtspCamera_putSetting numberToString key v st = setItem st key (toString numberToString v)"

section \<open>RtspSmartCamera: the listen loop\<close>

text \<open>
  The listen loop lives in the runtime's event loop. Its model keeps what the loop touches:
  the configuration, the \<^verbatim>\<open>listener\<close> field (the emitter a call of \<^verbatim>\<open>listenEvents()\<close>
  returned, by its number), the \<^verbatim>\<open>error\<close> handlers registered on each emitter, the pending
  \<^verbatim>\<open>setTimeout\<close> entries with their due times, a clock in milliseconds, and the sequence of
  observable effects in the order they happen.
\<close>

datatype Callback = ListenLoopCallback

datatype Handler = RestartHandler

datatype Effect =
    ListenEvents nat
  | ConsoleError string string
  | SetTimeout Callback nat
  | SetItem string string

datatype JsError = TypeError | UnhandledError string

record SmartCamera =
  storage :: Storage
  listener :: "nat option"
  listenCalls :: nat
  handlers :: "nat \<Rightarrow> Handler list"
  timers :: "(nat \<times> Callback) list"
  now :: nat
  effects :: "Effect list"

text \<open>
  Modelled from the spec: \<^verbatim>\<open>listenEvents()\<close> is abstract, each camera family supplies it.
  The spec asks for a live subscription object that is fully replaced, not reused, on each
  restart, and for a stub that counts the calls. So the call numbered \<open>n\<close> (from 0) returns
  the new emitter \<open>n\<close>, which has no handler yet, and the counter \<open>listenCalls\<close> goes up.
\<close>

definition listenEvents :: "SmartCamera \<Rightarrow> nat \<times> SmartCamera" where
  "listenEvents s =
     (listenCalls s,
      s\<lparr>listenCalls := Suc (listenCalls s),
        handlers := (handlers s)(listenCalls s := []),
        effects := effects s @ [ListenEvents (listenCalls s)]\<rparr>)"

text \<open>\<^verbatim>\<open>emitter.on('error', h)\<close> appends the handler to the emitter's list.\<close>

definition on_error :: "nat \<Rightarrow> Handler \<Rightarrow> SmartCamera \<Rightarrow> SmartCamera" where
  "on_error e h s = s\<lparr>handlers := (handlers s)(e := handlers s e @ [h])\<rparr>"

definition listenLoop :: "SmartCamera \<Rightarrow> SmartCamera" where
  "listenLoop s =
     (case listenEvents s of
        (e, s1) \<Rightarrow> on_error e RestartHandler (s1\<lparr>listener := Some e\<rparr>))"

text \<open>\<^verbatim>\<open>setTimeout(cb, delay)\<close> queues the callback for the time \<open>now + delay\<close>.\<close>

definition setTimeout :: "Callback \<Rightarrow> nat \<Rightarrow> SmartCamera \<Rightarrow> SmartCamera" where
  "setTimeout cb delay s =
     s\<lparr>timers := timers s @ [(now s + delay, cb)],
       effects := effects s @ [SetTimeout cb delay]\<rparr>"

definition console_error :: "string \<Rightarrow> string \<Rightarrow> SmartCamera \<Rightarrow> SmartCamera" where
  "console_error msg e s = s\<lparr>effects := effects s @ [ConsoleError msg e]\<rparr>"

text \<open>The body of the handler that \<^verbatim>\<open>listenLoop\<close> registers: log, then schedule.\<close>

definition run_handler :: "Handler \<Rightarrow> string \<Rightarrow> SmartCamera \<Rightarrow> SmartCamera" where
  "run_handler h e s =
     (case h of
        RestartHandler \<Rightarrow>
          setTimeout ListenLoopCallback 10000
            (console_error ''listen loop error, restarting in 10 seconds'' e s))"

text \<open>
  \<^verbatim>\<open>emitter.emit('error', err)\<close> runs the emitter's handlers in the order of registration,
  within the caller's turn; with no handler registered the runtime throws the error.
\<close>

definition emit_error :: "nat \<Rightarrow> string \<Rightarrow> SmartCamera \<Rightarrow> JsError + SmartCamera" where
  "emit_error e err s =
     (case handlers s e of
        [] \<Rightarrow> Inl (UnhandledError err)
      | h # hs \<Rightarrow> Inr (foldl (\<lambda>s' h'. run_handler h' err s') s (h # hs)))"

definition RtspSmartCamera_putSetting ::
  "('n \<Rightarrow> string) \<Rightarrow> string \<Rightarrow> 'n SettingValue \<Rightarrow> SmartCamera \<Rightarrow> JsError + SmartCamera" where
  "RtspSmartCamera_putSetting numberToString key v s =
     (let s1 = s\<lparr>storage := RtspCamera_putSetting numberToString key v (storage s),
                 effects := effects s @ [SetItem key (toString numberToString v)]\<rparr>
      in case listener s1 of
           None \<Rightarrow> Inl TypeError
         | Some e \<Rightarrow> emit_error e ''new settings'' s1)"

text \<open>The constructor: the fields of a new object, then \<^verbatim>\<open>this.listenLoop()\<close>.\<close>

definition new_RtspSmartCamera :: "Storage \<Rightarrow> nat \<Rightarrow> SmartCamera" where
  "new_RtspSmartCamera st t0 =
     listenLoop \<lparr>storage = st, listener = None, listenCalls = 0, handlers = (\<lambda>e. []),
                 timers = [], now = t0, effects = []\<rparr>"

subsection \<open>The event loop\<close>

text \<open>
  The timer that fires next is the one with the least due time, the earliest queued among
  equals.
\<close>

fun next_timer :: "(nat \<times> Callback) list \<Rightarrow> (nat \<times> Callback) option" where
  "next_timer [] = None"
| "next_timer (tm # tms) =
     (case next_timer tms of
        None \<Rightarrow> Some tm
      | Some u \<Rightarrow> if fst u < fst tm then Some u else Some tm)"

definition run_callback :: "Callback \<Rightarrow> SmartCamera \<Rightarrow> SmartCamera" where
  "run_callback cb s = (case cb of ListenLoopCallback \<Rightarrow> listenLoop s)"

lemma next_timer_mem: "next_timer tms = Some tm \<Longrightarrow> tm \<in> set tms"
  by (induction tms arbitrary: tm) (auto split: option.splits if_splits)

lemma timers_listenLoop: "timers (listenLoop s) = timers s"
  by (simp add: listenLoop_def listenEvents_def on_error_def)

lemma timers_run_callback: "timers (run_callback cb s) = timers s"
  by (cases cb) (simp add: run_callback_def timers_listenLoop)

text \<open>
  Letting the clock reach \<open>t\<close>: the timers due by then fire one after the other, each at
  its due time, and the clock ends at \<open>t\<close>.
\<close>

function run_until :: "nat \<Rightarrow> SmartCamera \<Rightarrow> SmartCamera" where
  "run_until t s =
     (case next_timer (timers s) of
        None \<Rightarrow> s\<lparr>now := max (now s) t\<rparr>
      | Some tm \<Rightarrow>
          if fst tm \<le> t
          then run_until t
                 (run_callback (snd tm)
                    (s\<lparr>timers := remove1 tm (timers s), now := max (now s) (fst tm)\<rparr>))
          else s\<lparr>now := max (now s) t\<rparr>)"
  by pat_completeness auto
termination
proof (relation "measure (\<lambda>(t, s). length (timers s))")
  show "wf (measure (\<lambda>(t, s). length (timers s)))"
    by simp
next
  fix t :: nat and s :: SmartCamera and tm :: "nat \<times> Callback"
  assume "next_timer (timers s) = Some tm"
  then have "tm \<in> set (timers s)"
    by (rule next_timer_mem)
  then have "length (remove1 tm (timers s)) < length (timers s)"
    using length_pos_if_in_set [of tm "timers s"] by (simp add: length_remove1)
  then show "((t, run_callback (snd tm)
                  (s\<lparr>timers := remove1 tm (timers s), now := max (now s) (fst tm)\<rparr>)), t, s)
             \<in> measure (\<lambda>(t, s). length (timers s))"
    by (simp add: timers_run_callback)
qed

declare run_until.simps [simp del]

text \<open>
  One turn of the event loop with the clock where it stands: the callbacks that are due
  run, nothing else does.
\<close>

definition next_turn :: "SmartCamera \<Rightarrow> SmartCamera" where
  "next_turn s = run_until (now s) s"

text \<open>
  The adapter's subscription is supervised when the \<^verbatim>\<open>listener\<close> field holds an emitter
  that a call of \<^verbatim>\<open>listenEvents()\<close> returned and that carries exactly the loop's handler:
  an error on it is caught by the loop.
\<close>

definition supervised :: "SmartCamera \<Rightarrow> bool" where
  "supervised s =
     (case listener s of
        None \<Rightarrow> False
      | Some e \<Rightarrow> e < listenCalls s \<and> handlers s e = [RestartHandler])"

text \<open>
  The adapter is re-armed when the \<^verbatim>\<open>listener\<close> field holds the emitter that the latest call
  of \<^verbatim>\<open>listenEvents()\<close> returned, and that emitter carries exactly the loop's handler.
\<close>

definition rearmed :: "SmartCamera \<Rightarrow> bool" where
  "rearmed s =
     (0 < listenCalls s \<and> listener s = Some (listenCalls s - 1) \<and>
      handlers s (listenCalls s - 1) = [RestartHandler])"

text \<open>The number of pending timers that are due by the time \<open>t\<close>.\<close>

definition due_by :: "nat \<Rightarrow> (nat \<times> Callback) list \<Rightarrow> nat" where
  "due_by t tms = length (filter (\<lambda>tm. fst tm \<le> t) tms)"

section \<open>RtspProvider\<close>

text \<open>
  Modelled from the spec: the enums \<^verbatim>\<open>ScryptedInterface\<close> and \<^verbatim>\<open>ScryptedDeviceType\<close> belong to
  the platform's SDK. The provider names the interfaces VideoCamera and Settings and the
  device type Camera; every other member is kept by its name.
\<close>

datatype ScryptedInterface = VideoCamera | Settings | OtherInterface string

datatype ScryptedDeviceType = Camera | OtherDeviceType string

record Device =
  nativeId :: string
  name :: string
  interfaces :: "ScryptedInterface list"
  deviceType :: ScryptedDeviceType

text \<open>
  The calls the provider makes to the host platform: \<^verbatim>\<open>deviceManager.onDeviceDiscovered\<close>,
  \<^verbatim>\<open>log.a\<close> (raise an alert) and \<^verbatim>\<open>log.clearAlert\<close>.
\<close>

datatype HostCall = OnDeviceDiscovered Device | LogAlert string | LogClearAlert string

text \<open>
  Adapters are objects: the registry \<^verbatim>\<open>devices\<close> maps an identifier to a reference, an
  address in the object heap, and two references are the same instance exactly when the
  addresses are equal. \<open>host\<close> lists the calls to the host platform in the order they were
  made, \<open>draws\<close> counts the calls of \<^verbatim>\<open>Math.random()\<close>.
\<close>

datatype RtspCameraObject = RtspCameraObject string

record Provider =
  devices :: "string \<rightharpoonup> nat"
  heap :: "RtspCameraObject list"
  host :: "HostCall list"
  draws :: nat

definition getAdditionalInterfaces :: "ScryptedInterface list" where
  "getAdditionalInterfaces = []"

definition onDeviceDiscovered :: "Device \<Rightarrow> Provider \<Rightarrow> Provider" where
  "onDeviceDiscovered d p = p\<lparr>host := host p @ [OnDeviceDiscovered d]\<rparr>"

definition log_a :: "string \<Rightarrow> Provider \<Rightarrow> Provider" where
  "log_a msg p = p\<lparr>host := host p @ [LogAlert msg]\<rparr>"

definition log_clearAlert :: "string \<Rightarrow> Provider \<Rightarrow> Provider" where
  "log_clearAlert msg p = p\<lparr>host := host p @ [LogClearAlert msg]\<rparr>"

text \<open>
  \<^verbatim>\<open>Math.random().toString()\<close> is the runtime's: \<open>random n\<close> is the text of the draw
  numbered \<open>n\<close>. The interfaces a subclass adds are the parameter \<open>additional\<close>
  (\<open>getAdditionalInterfaces\<close> for the provider itself). The key is never read.
\<close>

definition RtspProvider_putSetting ::
  "(nat \<Rightarrow> string) \<Rightarrow> ('n \<Rightarrow> string) \<Rightarrow> ScryptedInterface list \<Rightarrow>
   string \<Rightarrow> 'n SettingValue \<Rightarrow> Provider \<Rightarrow> Provider" where
  "RtspProvider_putSetting random numberToString additional key v p =
     (let newId = random (draws p);
          p1 = p\<lparr>draws := Suc (draws p)\<rparr>;
          newName = toString numberToString v;
          p2 = onDeviceDiscovered
                 \<lparr>nativeId = newId, name = newName,
                  interfaces = [VideoCamera, Settings] @ additional,
                  deviceType = Camera\<rparr> p1;
          alert = ''New Camera '' @ newName @
                  '' ready. Check the notification area to complete setup.'';
          p3 = log_a alert p2
      in log_clearAlert alert p3)"

text \<open>\<^verbatim>\<open>new RtspCamera(nativeId)\<close> allocates a new object; its address is the next free one.\<close>

definition createCamera :: "string \<Rightarrow> Provider \<Rightarrow> nat option \<times> Provider" where
  "createCamera nid p = (Some (length (heap p)), p\<lparr>heap := heap p @ [RtspCameraObject nid]\<rparr>)"

definition getDevice :: "string \<Rightarrow> Provider \<Rightarrow> nat option \<times> Provider" where
  "getDevice nid p =
     (case devices p nid of
        Some ret \<Rightarrow> (Some ret, p)
      | None \<Rightarrow>
          (case createCamera nid p of
             (Some ret, p1) \<Rightarrow> (Some ret, p1\<lparr>devices := (devices p1)(nid \<mapsto> ret)\<rparr>)
           | (None, p1) \<Rightarrow> (None, p1)))"

text \<open>
  The constructor warms the registry with the identifiers the host knows; an undefined or
  empty identifier is skipped.
\<close>

definition new_RtspProvider :: "string option list \<Rightarrow> Provider" where
  "new_RtspProvider nativeIds =
     foldl (\<lambda>p camId.
              case camId of
                None \<Rightarrow> p
              | Some cid \<Rightarrow> if truthy (Some cid) then snd (getDevice cid p) else p)
       \<lparr>devices = Map.empty, heap = [], host = [], draws = 0\<rparr> nativeIds"

text \<open>The host's later calls on the provider, in any order and number.\<close>

datatype 'n ProviderCall = GetDevice string | PutSetting string "'n SettingValue"

fun run_call ::
  "(nat \<Rightarrow> string) \<Rightarrow> ('n \<Rightarrow> string) \<Rightarrow> ScryptedInterface list \<Rightarrow>
   Provider \<Rightarrow> 'n ProviderCall \<Rightarrow> Provider" where
  "run_call random numberToString additional p (GetDevice nid) = snd (getDevice nid p)"
| "run_call random numberToString additional p (PutSetting key v) =
     RtspProvider_putSetting random numberToString additional key v p"

definition run_calls ::
  "(nat \<Rightarrow> string) \<Rightarrow> ('n \<Rightarrow> string) \<Rightarrow> ScryptedInterface list \<Rightarrow>
   'n ProviderCall list \<Rightarrow> Provider \<Rightarrow> Provider" where
  "run_calls random numberToString additional calls p =
     foldl (run_call random numberToString additional) p calls"

text \<open>The identifiers announced to the host so far, oldest first.\<close>

fun discovered_ids :: "HostCall list \<Rightarrow> string list" where
  "discovered_ids [] = []"
| "discovered_ids (OnDeviceDiscovered d # cs) = nativeId d # discovered_ids cs"
| "discovered_ids (c # cs) = discovered_ids cs"

text \<open>Every registered reference points into the heap.\<close>

definition registry_ok :: "Provider \<Rightarrow> bool" where
  "registry_ok p = (\<forall>a \<in> ran (devices p). a < length (heap p))"

section \<open>Properties of the capability descriptor\<close>

text \<open>
  C1. Whenever the configuration has no \<^verbatim>\<open>noAudio\<close> entry, or has one whose value is any
  string other than \<^verbatim>\<open>true\<close>, \<^verbatim>\<open>getVideoStreamOptions()\<close> returns exactly one descriptor
  and that descriptor carries an audio capability (and a video capability); when
  \<^verbatim>\<open>noAudio\<close> is exactly \<^verbatim>\<open>true\<close>, the single descriptor has no audio capability.
\<close>

theorem getVideoStreamOptions_audio:
  "(st ''noAudio'' \<noteq> Some ''true'' \<longrightarrow>
      getVideoStreamOptions st =
        [\<lparr>video = Some EmptyVideoOptions, audio = Some EmptyAudioOptions\<rparr>]) \<and>
   (st ''noAudio'' = Some ''true'' \<longrightarrow>
      getVideoStreamOptions st = [\<lparr>video = Some EmptyVideoOptions, audio = None\<rparr>])"
  by (simp add: getVideoStreamOptions_def isAudioDisabled_def getItem_def)

theorem getVideoStreamOptions_audio_witness:
  "audio (hd (getVideoStreamOptions Map.empty)) = Some EmptyAudioOptions \<and>
   audio (hd (getVideoStreamOptions [''noAudio'' \<mapsto> ''false''])) = Some EmptyAudioOptions \<and>
   audio (hd (getVideoStreamOptions [''noAudio'' \<mapsto> ''TRUE''])) = Some EmptyAudioOptions \<and>
   audio (hd (getVideoStreamOptions [''noAudio'' \<mapsto> ''true''])) = None \<and>
   length (getVideoStreamOptions [''noAudio'' \<mapsto> ''true'']) = 1"
  using getVideoStreamOptions_audio [of Map.empty]
    getVideoStreamOptions_audio [of "[''noAudio'' \<mapsto> ''false'']"]
    getVideoStreamOptions_audio [of "[''noAudio'' \<mapsto> ''TRUE'']"]
    getVideoStreamOptions_audio [of "[''noAudio'' \<mapsto> ''true'']"]
  by simp

section \<open>Properties of the address construction\<close>

lemma js_or_Some_nonempty: "s \<noteq> [] \<Longrightarrow> js_or (Some s) b = s"
  by (simp add: js_or_def)

lemma getRtspChannel_set: "st ''rtspChannel'' = Some c \<Longrightarrow> c \<noteq> [] \<Longrightarrow> getRtspChannel st = c"
  by (simp add: getRtspChannel_def getItem_def js_or_def)

text \<open>
  C2. In the example configuration (\<^verbatim>\<open>isAnalogueCamera\<close> = \<^verbatim>\<open>true\<close>, channel \<^verbatim>\<open>2\<close>, override
  \<^verbatim>\<open>rtsp://host\<close>, parameters \<^verbatim>\<open>?x=1\<close>) \<^verbatim>\<open>getRtspUrlOverride()\<close> is exactly
  \<^verbatim>\<open>rtsp://host/201/?x=1\<close>. In general, when \<^verbatim>\<open>isAnalogueCamera\<close> is \<^verbatim>\<open>true\<close> and a
  non-empty channel is stored, the result is the override, a slash, the channel followed by
  the two characters \<^verbatim>\<open>01\<close>, a slash and the parameters, concatenated as text.
\<close>

theorem getRtspUrlOverride_analogue:
  "getRtspUrlOverride analogue_example = Some ''rtsp://host/201/?x=1'' \<and>
   (st ''isAnalogueCamera'' = Some ''true'' \<and> st ''rtspChannel'' = Some c \<and> c \<noteq> [] \<longrightarrow>
      getRtspUrlOverride st =
        Some (template_str (st ''rtspUrlOverride'') @ ''/'' @ (c @ ''01'') @ ''/'' @ getRtspUrlParams st))"
proof
  show "getRtspUrlOverride analogue_example = Some ''rtsp://host/201/?x=1''"
    by (simp add: getRtspUrlOverride_def isAnalogueCamera_def getAnalogueCameraUrl_def
        getRtspChannel_def getRtspUrl_def getRtspUrlParams_def getItem_def js_or_def
        truthy_def template_str_def analogue_example_def)
next
  show "st ''isAnalogueCamera'' = Some ''true'' \<and> st ''rtspChannel'' = Some c \<and> c \<noteq> [] \<longrightarrow>
      getRtspUrlOverride st =
        Some (template_str (st ''rtspUrlOverride'') @ ''/'' @ (c @ ''01'') @ ''/'' @ getRtspUrlParams st)"
  proof
    assume a: "st ''isAnalogueCamera'' = Some ''true'' \<and> st ''rtspChannel'' = Some c \<and> c \<noteq> []"
    then have ch: "getRtspChannel st = c"
      by (simp add: getRtspChannel_set)
    from a have an: "isAnalogueCamera st"
      by (simp add: isAnalogueCamera_def getItem_def)
    from a ch an show "getRtspUrlOverride st =
        Some (template_str (st ''rtspUrlOverride'') @ ''/'' @ (c @ ''01'') @ ''/'' @ getRtspUrlParams st)"
      by (simp add: getRtspUrlOverride_def getAnalogueCameraUrl_def getRtspUrl_def
          getItem_def truthy_def)
  qed
qed

theorem getRtspUrlOverride_analogue_witness:
  "getRtspUrlOverride
     [''isAnalogueCamera'' \<mapsto> ''true'', ''rtspChannel'' \<mapsto> ''17'',
      ''rtspUrlOverride'' \<mapsto> ''rtsp://nvr:554''] =
   Some ''rtsp://nvr:554/1701/?transportmode=unicast''"
  using getRtspUrlOverride_analogue
    [of "[''isAnalogueCamera'' \<mapsto> ''true'', ''rtspChannel'' \<mapsto> ''17'',
          ''rtspUrlOverride'' \<mapsto> ''rtsp://nvr:554'']" "''17''"]
  by (simp add: template_str_def getRtspUrlParams_def getItem_def js_or_def)

text \<open>
  C5. For every configuration and every constructed-URL collaborator, \<^verbatim>\<open>getStreamUrl()\<close>
  of the smart adapter is the value of \<^verbatim>\<open>getRtspUrlOverride()\<close> when that value is a
  non-empty string, and is the collaborator's URL otherwise (override absent or empty).
\<close>

theorem getStreamUrl_branches:
  "(getRtspUrlOverride st = Some u \<and> u \<noteq> [] \<longrightarrow> getStreamUrl constructed st = u) \<and>
   (getRtspUrlOverride st = None \<or> getRtspUrlOverride st = Some [] \<longrightarrow>
      getStreamUrl constructed st = constructed st)"
  by (auto simp: getStreamUrl_def js_or_def)

theorem getStreamUrl_branches_witness:
  "getStreamUrl (\<lambda>st. ''rtsp://192.168.1.100:554/stream'')
     [''rtspUrlOverride'' \<mapsto> ''rtsp://nvr/live''] = ''rtsp://nvr/live'' \<and>
   getStreamUrl (\<lambda>st. ''rtsp://192.168.1.100:554/stream'') Map.empty =
     ''rtsp://192.168.1.100:554/stream'' \<and>
   getStreamUrl (\<lambda>st. ''rtsp://192.168.1.100:554/stream'') [''rtspUrlOverride'' \<mapsto> []] =
     ''rtsp://192.168.1.100:554/stream''"
  using getStreamUrl_branches
    [of "[''rtspUrlOverride'' \<mapsto> ''rtsp://nvr/live'']" "''rtsp://nvr/live''"
        "\<lambda>st. ''rtsp://192.168.1.100:554/stream''"]
    getStreamUrl_branches
    [of Map.empty "[]" "\<lambda>st. ''rtsp://192.168.1.100:554/stream''"]
    getStreamUrl_branches
    [of "[''rtspUrlOverride'' \<mapsto> []]" "[]" "\<lambda>st. ''rtsp://192.168.1.100:554/stream''"]
  by (simp add: getRtspUrlOverride_def isAnalogueCamera_def getRtspUrl_def getItem_def)

text \<open>
  C6. Whenever \<^verbatim>\<open>isAnalogueCamera\<close> is absent or holds anything but \<^verbatim>\<open>true\<close>, or the
  channel is absent or empty, \<^verbatim>\<open>getRtspUrlOverride()\<close> is the stored \<^verbatim>\<open>rtspUrlOverride\<close>
  entry itself, whatever it is: absent, empty or any other string.
\<close>

theorem getRtspUrlOverride_raw:
  "st ''isAnalogueCamera'' \<noteq> Some ''true'' \<or> st ''rtspChannel'' = None \<or>
     st ''rtspChannel'' = Some [] \<longrightarrow>
   getRtspUrlOverride st = st ''rtspUrlOverride''"
  by (auto simp: getRtspUrlOverride_def isAnalogueCamera_def getRtspUrl_def getItem_def
      getRtspChannel_def js_or_def truthy_def)

theorem getRtspUrlOverride_raw_witness:
  "getRtspUrlOverride [''rtspChannel'' \<mapsto> ''2'', ''rtspUrlOverride'' \<mapsto> ''rtsp://host''] =
     Some ''rtsp://host'' \<and>
   getRtspUrlOverride [''isAnalogueCamera'' \<mapsto> ''true'', ''rtspUrlOverride'' \<mapsto> []] = Some [] \<and>
   getRtspUrlOverride [''isAnalogueCamera'' \<mapsto> ''true'', ''rtspChannel'' \<mapsto> []] = None"
  using getRtspUrlOverride_raw
    [of "[''rtspChannel'' \<mapsto> ''2'', ''rtspUrlOverride'' \<mapsto> ''rtsp://host'']"]
    getRtspUrlOverride_raw
    [of "[''isAnalogueCamera'' \<mapsto> ''true'', ''rtspUrlOverride'' \<mapsto> []]"]
    getRtspUrlOverride_raw
    [of "[''isAnalogueCamera'' \<mapsto> ''true'', ''rtspChannel'' \<mapsto> []]"]
  by simp

text \<open>
  C9. With \<^verbatim>\<open>isAnalogueCamera\<close> = \<^verbatim>\<open>true\<close>, a non-empty channel and no \<^verbatim>\<open>rtspUrlOverride\<close>
  entry, \<^verbatim>\<open>getAnalogueCameraUrl()\<close> interpolates the absent value as the text \<^verbatim>\<open>null\<close>: the
  result is non-empty and starts with \<^verbatim>\<open>null/\<close>. \<^verbatim>\<open>getRtspUrlOverride()\<close> returns this
  string, and \<^verbatim>\<open>getStreamUrl()\<close> returns it too, whatever the constructed URL is.
\<close>

theorem analogue_url_absent_override:
  "st ''isAnalogueCamera'' = Some ''true'' \<and> st ''rtspChannel'' = Some c \<and> c \<noteq> [] \<and>
     st ''rtspUrlOverride'' = None \<longrightarrow>
   getAnalogueCameraUrl st = ''null/'' @ c @ ''01/'' @ getRtspUrlParams st \<and>
   getAnalogueCameraUrl st \<noteq> [] \<and>
   take 5 (getAnalogueCameraUrl st) = ''null/'' \<and>
   getRtspUrlOverride st = Some (getAnalogueCameraUrl st) \<and>
   getStreamUrl constructed st = getAnalogueCameraUrl st"
proof
  assume a: "st ''isAnalogueCamera'' = Some ''true'' \<and> st ''rtspChannel'' = Some c \<and> c \<noteq> [] \<and>
     st ''rtspUrlOverride'' = None"
  then have ch: "getRtspChannel st = c"
    by (simp add: getRtspChannel_set)
  from a ch have url: "getAnalogueCameraUrl st = ''null/'' @ c @ ''01/'' @ getRtspUrlParams st"
    by (simp add: getAnalogueCameraUrl_def getRtspUrl_def getItem_def template_str_def)
  from a ch have ov: "getRtspUrlOverride st = Some (getAnalogueCameraUrl st)"
    by (simp add: getRtspUrlOverride_def isAnalogueCamera_def getItem_def truthy_def)
  from url have ne: "getAnalogueCameraUrl st \<noteq> []"
    by simp
  from ov ne have su: "getStreamUrl constructed st = getAnalogueCameraUrl st"
    by (simp add: getStreamUrl_def js_or_Some_nonempty)
  from url have pre: "take 5 (getAnalogueCameraUrl st) = ''null/''"
    by simp
  from url ne pre ov su
  show "getAnalogueCameraUrl st = ''null/'' @ c @ ''01/'' @ getRtspUrlParams st \<and>
   getAnalogueCameraUrl st \<noteq> [] \<and>
   take 5 (getAnalogueCameraUrl st) = ''null/'' \<and>
   getRtspUrlOverride st = Some (getAnalogueCameraUrl st) \<and>
   getStreamUrl constructed st = getAnalogueCameraUrl st"
    by blast
qed

theorem analogue_url_absent_override_witness:
  "getStreamUrl (\<lambda>st. ''rtsp://192.168.1.100:554/stream'')
     [''isAnalogueCamera'' \<mapsto> ''true'', ''rtspChannel'' \<mapsto> ''2''] =
   ''null/201/?transportmode=unicast''"
  using analogue_url_absent_override
    [of "[''isAnalogueCamera'' \<mapsto> ''true'', ''rtspChannel'' \<mapsto> ''2'']" "''2''"
        "\<lambda>st. ''rtsp://192.168.1.100:554/stream''"]
  by (simp add: getRtspUrlParams_def getItem_def js_or_def)

text \<open>
  C10. The parameters component is the fixed text \<^verbatim>\<open>?transportmode=unicast\<close> when the
  \<^verbatim>\<open>rtspUrlParams\<close> entry is absent or empty, and the stored text itself when it is
  non-empty; the analogue-camera URL ends with a slash followed by exactly this component.
\<close>

theorem getRtspUrlParams_default:
  "(st ''rtspUrlParams'' = None \<or> st ''rtspUrlParams'' = Some [] \<longrightarrow>
      getRtspUrlParams st = ''?transportmode=unicast'') \<and>
   (st ''rtspUrlParams'' = Some p \<and> p \<noteq> [] \<longrightarrow> getRtspUrlParams st = p) \<and>
   getAnalogueCameraUrl st =
     template_str (getRtspUrl st) @ ''/'' @ getRtspChannel st @ ''01/'' @ getRtspUrlParams st"
  by (auto simp: getRtspUrlParams_def getItem_def js_or_def getAnalogueCameraUrl_def)

theorem getRtspUrlParams_default_witness:
  "getRtspUrlParams Map.empty = ''?transportmode=unicast'' \<and>
   getRtspUrlParams [''rtspUrlParams'' \<mapsto> []] = ''?transportmode=unicast'' \<and>
   getRtspUrlParams [''rtspUrlParams'' \<mapsto> ''?x=1''] = ''?x=1'' \<and>
   getAnalogueCameraUrl [''rtspUrlOverride'' \<mapsto> ''rtsp://host'', ''rtspChannel'' \<mapsto> ''3''] =
     ''rtsp://host/301/?transportmode=unicast''"
  using getRtspUrlParams_default [of Map.empty "[]"]
    getRtspUrlParams_default [of "[''rtspUrlParams'' \<mapsto> []]" "[]"]
    getRtspUrlParams_default [of "[''rtspUrlParams'' \<mapsto> ''?x=1'']" "''?x=1''"]
    getRtspUrlParams_default
      [of "[''rtspUrlOverride'' \<mapsto> ''rtsp://host'', ''rtspChannel'' \<mapsto> ''3'']" "[]"]
  by (simp add: template_str_def getRtspUrl_def getRtspChannel_def getItem_def js_or_def)

section \<open>Properties of the listen loop\<close>

lemma next_timer_None: "next_timer tms = None \<Longrightarrow> tms = []"
  by (cases tms) (auto split: option.splits if_splits)

lemma next_timer_least: "next_timer tms = Some tm \<Longrightarrow> u \<in> set tms \<Longrightarrow> fst tm \<le> fst u"
proof (induction tms arbitrary: tm u)
  case Nil
  then show ?case by simp
next
  case (Cons a tms)
  show ?case
  proof (cases "next_timer tms")
    case None
    then have "tms = []"
      by (rule next_timer_None)
    then show ?thesis
      using Cons.prems by simp
  next
    case (Some v)
    have v: "fst v \<le> fst w" if "w \<in> set tms" for w
      using Cons.IH [OF Some that] .
    show ?thesis
    proof (cases "fst v < fst a")
      case True
      then have tm: "tm = v"
        using Cons.prems(1) Some by simp
      from Cons.prems(2) consider "u = a" | "u \<in> set tms"
        by auto
      then show ?thesis
      proof cases
        case 1
        then show ?thesis using tm True by simp
      next
        case 2
        then show ?thesis using tm v [OF 2] by simp
      qed
    next
      case False
      then have tm: "tm = a"
        using Cons.prems(1) Some by simp
      from Cons.prems(2) consider "u = a" | "u \<in> set tms"
        by auto
      then show ?thesis
      proof cases
        case 1
        then show ?thesis using tm by simp
      next
        case 2
        then show ?thesis using tm v [OF 2] False by simp
      qed
    qed
  qed
qed

lemma due_by_Nil: "due_by t [] = 0"
  by (simp add: due_by_def)

lemma due_by_append: "due_by t (xs @ ys) = due_by t xs + due_by t ys"
  by (simp add: due_by_def)

lemma due_by_single: "due_by t [(d, cb)] = (if d \<le> t then 1 else 0)"
  by (simp add: due_by_def)

lemma due_by_remove1:
  "tm \<in> set tms \<Longrightarrow> fst tm \<le> t \<Longrightarrow> Suc (due_by t (remove1 tm tms)) = due_by t tms"
  by (induction tms) (auto simp: due_by_def)

lemma due_by_later: "next_timer tms = Some tm \<Longrightarrow> t < fst tm \<Longrightarrow> due_by t tms = 0"
proof -
  assume nt: "next_timer tms = Some tm" and lt: "t < fst tm"
  have "\<not> fst u \<le> t" if "u \<in> set tms" for u
    using next_timer_least [OF nt that] lt by simp
  then have "filter (\<lambda>u. fst u \<le> t) tms = []"
    by (simp add: filter_empty_conv)
  then show ?thesis
    by (simp add: due_by_def)
qed

lemma run_until_idle:
  "next_timer (timers s) = None \<Longrightarrow> run_until t s = s\<lparr>now := max (now s) t\<rparr>"
  by (subst run_until.simps) simp

lemma run_until_wait:
  "next_timer (timers s) = Some tm \<Longrightarrow> t < fst tm \<Longrightarrow> run_until t s = s\<lparr>now := max (now s) t\<rparr>"
  by (subst run_until.simps) simp

lemma run_until_fire:
  "next_timer (timers s) = Some tm \<Longrightarrow> fst tm \<le> t \<Longrightarrow>
   run_until t s =
     run_until t (run_callback (snd tm)
       (s\<lparr>timers := remove1 tm (timers s), now := max (now s) (fst tm)\<rparr>))"
  by (subst run_until.simps) simp

lemma listenCalls_listenLoop: "listenCalls (listenLoop s) = Suc (listenCalls s)"
  by (simp add: listenLoop_def listenEvents_def on_error_def)

lemma listenCalls_run_callback: "listenCalls (run_callback cb s) = Suc (listenCalls s)"
  by (cases cb) (simp add: run_callback_def listenCalls_listenLoop)

lemma supervised_listenLoop: "supervised (listenLoop s)"
  by (simp add: supervised_def listenLoop_def listenEvents_def on_error_def)

lemma supervised_run_callback: "supervised (run_callback cb s)"
  by (cases cb) (simp add: run_callback_def supervised_listenLoop)

lemma supervised_now: "supervised (s\<lparr>now := t\<rparr>) = supervised s"
  by (simp add: supervised_def split: option.splits)

text \<open>Every timer due by \<open>t\<close> fires once, and each firing is one call of \<^verbatim>\<open>listenEvents()\<close>.\<close>

lemma listenCalls_run_until:
  "listenCalls (run_until t s) = listenCalls s + due_by t (timers s)"
proof (induction t s rule: run_until.induct)
  case (1 t s)
  show ?case
  proof (cases "next_timer (timers s)")
    case None
    then have "timers s = []"
      by (rule next_timer_None)
    then show ?thesis
      using None by (simp add: run_until_idle due_by_Nil)
  next
    case (Some tm)
    show ?thesis
    proof (cases "fst tm \<le> t")
      case True
      have mem: "tm \<in> set (timers s)"
        using Some by (rule next_timer_mem)
      have "listenCalls (run_until t s) =
            Suc (listenCalls s) + due_by t (remove1 tm (timers s))"
        using "1.IH" [OF Some True] Some True
        by (simp add: run_until_fire listenCalls_run_callback timers_run_callback)
      then show ?thesis
        using due_by_remove1 [OF mem True] by simp
    next
      case False
      then show ?thesis
        using Some by (simp add: run_until_wait due_by_later)
    qed
  qed
qed

lemma supervised_run_until: "supervised s \<Longrightarrow> supervised (run_until t s)"
proof (induction t s rule: run_until.induct)
  case (1 t s)
  show ?case
  proof (cases "next_timer (timers s)")
    case None
    then show ?thesis
      using "1.prems" by (simp add: run_until_idle supervised_now)
  next
    case (Some tm)
    show ?thesis
    proof (cases "fst tm \<le> t")
      case True
      then show ?thesis
        using "1.IH" [OF Some True] Some by (simp add: run_until_fire supervised_run_callback)
    next
      case False
      then show ?thesis
        using Some "1.prems" by (simp add: run_until_wait supervised_now)
    qed
  qed
qed

text \<open>What an error on the supervised adapter's active subscription does, in its own turn.\<close>

lemma emit_error_supervised:
  "supervised s \<Longrightarrow> listener s = Some e \<Longrightarrow>
   emit_error e err s =
     Inr (s\<lparr>timers := timers s @ [(now s + 10000, ListenLoopCallback)],
            effects := effects s @
              [ConsoleError ''listen loop error, restarting in 10 seconds'' err,
               SetTimeout ListenLoopCallback 10000]\<rparr>)"
  by (simp add: supervised_def emit_error_def run_handler_def setTimeout_def console_error_def)

lemma supervised_new: "supervised (new_RtspSmartCamera st t0)"
  by (simp add: new_RtspSmartCamera_def supervised_listenLoop)

lemma putSetting_supervised:
  "supervised s \<Longrightarrow>
   RtspSmartCamera_putSetting numberToString key v s =
     Inr (s\<lparr>storage := (storage s)(key \<mapsto> toString numberToString v),
            timers := timers s @ [(now s + 10000, ListenLoopCallback)],
            effects := effects s @
              [SetItem key (toString numberToString v),
               ConsoleError ''listen loop error, restarting in 10 seconds'' ''new settings'',
               SetTimeout ListenLoopCallback 10000]\<rparr>)"
  by (auto simp: supervised_def RtspSmartCamera_putSetting_def RtspCamera_putSetting_def
      setItem_def emit_error_def run_handler_def setTimeout_def console_error_def Let_def
      split: option.splits)

lemma new_camera_fields:
  "listener (new_RtspSmartCamera st t0) = Some 0"
  "listenCalls (new_RtspSmartCamera st t0) = 1"
  "timers (new_RtspSmartCamera st t0) = []"
  "now (new_RtspSmartCamera st t0) = t0"
  "storage (new_RtspSmartCamera st t0) = st"
  "effects (new_RtspSmartCamera st t0) = [ListenEvents 0]"
  by (simp_all add: new_RtspSmartCamera_def listenLoop_def listenEvents_def on_error_def)

lemma rearmed_listenLoop: "rearmed (listenLoop s)"
  by (simp add: rearmed_def listenLoop_def listenEvents_def on_error_def)

lemma rearmed_run_callback: "rearmed (run_callback cb s)"
  by (cases cb) (simp add: run_callback_def rearmed_listenLoop)

lemma rearmed_now: "rearmed (s\<lparr>now := t\<rparr>) = rearmed s"
  by (simp add: rearmed_def)

text \<open>
  Once a timer has fired, the \<^verbatim>\<open>listener\<close> field holds the subscription acquired last, with
  the handler on it.
\<close>

lemma rearmed_run_until:
  "rearmed s \<or> 0 < due_by t (timers s) \<Longrightarrow> rearmed (run_until t s)"
proof (induction t s rule: run_until.induct)
  case (1 t s)
  show ?case
  proof (cases "next_timer (timers s)")
    case None
    then have "timers s = []"
      by (rule next_timer_None)
    then have "rearmed s"
      using "1.prems" by (simp add: due_by_Nil)
    then show ?thesis
      using None by (simp add: run_until_idle rearmed_now)
  next
    case (Some tm)
    show ?thesis
    proof (cases "fst tm \<le> t")
      case True
      have "rearmed (run_callback (snd tm)
          (s\<lparr>timers := remove1 tm (timers s), now := max (now s) (fst tm)\<rparr>))"
        by (rule rearmed_run_callback)
      then have "rearmed (run_until t (run_callback (snd tm)
          (s\<lparr>timers := remove1 tm (timers s), now := max (now s) (fst tm)\<rparr>)))"
        using "1.IH" [OF Some True] by blast
      then show ?thesis
        using Some True by (simp add: run_until_fire)
    next
      case False
      then have "due_by t (timers s) = 0"
        using Some by (simp add: due_by_later)
      then have "rearmed s"
        using "1.prems" by simp
      then show ?thesis
        using Some False by (simp add: run_until_wait rearmed_now)
    qed
  qed
qed

lemma emit_error_rearmed:
  "rearmed s \<Longrightarrow>
   emit_error (listenCalls s - 1) err s =
     Inr (s\<lparr>timers := timers s @ [(now s + 10000, ListenLoopCallback)],
            effects := effects s @
              [ConsoleError ''listen loop error, restarting in 10 seconds'' err,
               SetTimeout ListenLoopCallback 10000]\<rparr>)"
  by (simp add: rearmed_def emit_error_def run_handler_def setTimeout_def console_error_def)

text \<open>With a single timer pending and due, the clock running to \<open>t\<close> fires just that one.\<close>

lemma run_until_single:
  assumes "timers s = [(d, cb)]" and "d \<le> t"
  shows "run_until t s =
     (run_callback cb (s\<lparr>timers := [], now := max (now s) d\<rparr>))
       \<lparr>now := max (now (run_callback cb (s\<lparr>timers := [], now := max (now s) d\<rparr>))) t\<rparr>"
proof -
  have nt: "next_timer (timers s) = Some (d, cb)"
    using assms(1) by simp
  have fire: "run_until t s =
      run_until t (run_callback cb (s\<lparr>timers := [], now := max (now s) d\<rparr>))"
    using run_until_fire [OF nt] assms by simp
  have "next_timer (timers (run_callback cb (s\<lparr>timers := [], now := max (now s) d\<rparr>))) = None"
    by (simp add: timers_run_callback)
  then show ?thesis
    using fire by (simp add: run_until_idle)
qed

text \<open>
  C4. Let the subscription in the \<^verbatim>\<open>listener\<close> field, carrying the loop's handler, emit an
  error. The error is handled (nothing is thrown); the handler first logs the error and
  then schedules \<^verbatim>\<open>listenLoop\<close> with a delay of 10000 ms, and calls \<^verbatim>\<open>listenEvents()\<close>
  not at all in that turn. As the clock runs to any time \<open>t\<close>, the number of
  \<^verbatim>\<open>listenEvents()\<close> calls is what it would be without the error while \<open>t\<close> is less than
  10 seconds after the error, and exactly one more from 10 seconds on. From 10 seconds
  on the \<^verbatim>\<open>listener\<close> field no longer holds the failed subscription: it holds the one
  acquired last, a subscription that did not exist when the error happened, with the
  loop's handler registered on it, so that an error on it is again logged and again
  schedules a restart 10 seconds later. The cycle repeats without end: the loop has no
  terminal state. When no other restart was pending, the restart is the only thing that
  happens: one call of \<^verbatim>\<open>listenEvents()\<close>, whose emitter is stored and armed.
\<close>

theorem listenLoop_restart_after_error:
  "supervised s \<and> listener s = Some e \<longrightarrow>
   (\<exists>s'. emit_error e err s = Inr s' \<and>
      effects s' = effects s @
        [ConsoleError ''listen loop error, restarting in 10 seconds'' err,
         SetTimeout ListenLoopCallback 10000] \<and>
      timers s' = timers s @ [(now s + 10000, ListenLoopCallback)] \<and>
      listenCalls s' = listenCalls s \<and>
      (\<forall>t. listenCalls (run_until t s') =
            listenCalls (run_until t s) + (if now s + 10000 \<le> t then 1 else 0)) \<and>
      (\<forall>t. timers s = [] \<longrightarrow>
            listenCalls (run_until t s') =
            listenCalls s + (if now s + 10000 \<le> t then 1 else 0)) \<and>
      (\<forall>t. supervised (run_until t s')) \<and>
      (\<forall>t. now s + 10000 \<le> t \<longrightarrow>
         (\<exists>e'. listener (run_until t s') = Some e' \<and>
            e' \<noteq> e \<and> listenCalls s \<le> e' \<and>
            listenCalls (run_until t s') = Suc e' \<and>
            handlers (run_until t s') e' = [RestartHandler] \<and>
            (\<forall>err'. emit_error e' err' (run_until t s') =
               Inr ((run_until t s')
                 \<lparr>timers := timers (run_until t s') @
                    [(now (run_until t s') + 10000, ListenLoopCallback)],
                  effects := effects (run_until t s') @
                    [ConsoleError ''listen loop error, restarting in 10 seconds'' err',
                     SetTimeout ListenLoopCallback 10000]\<rparr>)))) \<and>
      (\<forall>t. timers s = [] \<and> now s + 10000 \<le> t \<longrightarrow>
         listener (run_until t s') = Some (listenCalls s) \<and>
         handlers (run_until t s') (listenCalls s) = [RestartHandler] \<and>
         effects (run_until t s') = effects s' @ [ListenEvents (listenCalls s)] \<and>
         timers (run_until t s') = [] \<and>
         now (run_until t s') = t))"
proof
  assume a: "supervised s \<and> listener s = Some e"
  define s' where "s' = s\<lparr>timers := timers s @ [(now s + 10000, ListenLoopCallback)],
            effects := effects s @
              [ConsoleError ''listen loop error, restarting in 10 seconds'' err,
               SetTimeout ListenLoopCallback 10000]\<rparr>"
  have em: "emit_error e err s = Inr s'"
    using a by (simp add: emit_error_supervised s'_def)
  have ef: "effects s' = effects s @
        [ConsoleError ''listen loop error, restarting in 10 seconds'' err,
         SetTimeout ListenLoopCallback 10000]"
    by (simp add: s'_def)
  have ti: "timers s' = timers s @ [(now s + 10000, ListenLoopCallback)]"
    by (simp add: s'_def)
  have lc: "listenCalls s' = listenCalls s"
    by (simp add: s'_def)
  have nw: "now s' = now s"
    by (simp add: s'_def)
  have old: "e < listenCalls s"
    using a by (auto simp: supervised_def)
  have cnt: "listenCalls (run_until t s') =
            listenCalls (run_until t s) + (if now s + 10000 \<le> t then 1 else 0)" for t
    by (simp add: listenCalls_run_until ti lc due_by_append due_by_single)
  have quiet: "timers s = [] \<longrightarrow>
            listenCalls (run_until t s') =
            listenCalls s + (if now s + 10000 \<le> t then 1 else 0)" for t
    by (simp add: listenCalls_run_until ti lc due_by_append due_by_single due_by_Nil)
  have "supervised s'"
    using a by (simp add: s'_def supervised_def split: option.splits)
  then have sup: "supervised (run_until t s')" for t
    by (rule supervised_run_until)
  have again: "now s + 10000 \<le> t \<longrightarrow>
         (\<exists>e'. listener (run_until t s') = Some e' \<and>
            e' \<noteq> e \<and> listenCalls s \<le> e' \<and>
            listenCalls (run_until t s') = Suc e' \<and>
            handlers (run_until t s') e' = [RestartHandler] \<and>
            (\<forall>err'. emit_error e' err' (run_until t s') =
               Inr ((run_until t s')
                 \<lparr>timers := timers (run_until t s') @
                    [(now (run_until t s') + 10000, ListenLoopCallback)],
                  effects := effects (run_until t s') @
                    [ConsoleError ''listen loop error, restarting in 10 seconds'' err',
                     SetTimeout ListenLoopCallback 10000]\<rparr>)))" for t
  proof
    assume late: "now s + 10000 \<le> t"
    let ?r = "run_until t s'"
    have "0 < due_by t (timers s')"
      using late by (simp add: ti due_by_append due_by_single)
    then have re: "rearmed ?r"
      by (simp add: rearmed_run_until)
    have n: "listenCalls ?r = Suc (listenCalls s + due_by t (timers s))"
      using late by (simp add: listenCalls_run_until ti lc due_by_append due_by_single)
    have l: "listener ?r = Some (listenCalls ?r - 1)"
      using re by (simp add: rearmed_def)
    have h: "handlers ?r (listenCalls ?r - 1) = [RestartHandler]"
      using re by (simp add: rearmed_def)
    have ne: "listenCalls ?r - 1 \<noteq> e"
      using n old by simp
    have ge: "listenCalls s \<le> listenCalls ?r - 1"
      using n by simp
    have su: "listenCalls ?r = Suc (listenCalls ?r - 1)"
      using n by simp
    have em': "emit_error (listenCalls ?r - 1) err' ?r =
               Inr (?r
                 \<lparr>timers := timers ?r @ [(now ?r + 10000, ListenLoopCallback)],
                  effects := effects ?r @
                    [ConsoleError ''listen loop error, restarting in 10 seconds'' err',
                     SetTimeout ListenLoopCallback 10000]\<rparr>)" for err'
      using re by (rule emit_error_rearmed)
    from l ne ge su h em'
    show "\<exists>e'. listener ?r = Some e' \<and>
            e' \<noteq> e \<and> listenCalls s \<le> e' \<and>
            listenCalls ?r = Suc e' \<and>
            handlers ?r e' = [RestartHandler] \<and>
            (\<forall>err'. emit_error e' err' ?r =
               Inr (?r
                 \<lparr>timers := timers ?r @ [(now ?r + 10000, ListenLoopCallback)],
                  effects := effects ?r @
                    [ConsoleError ''listen loop error, restarting in 10 seconds'' err',
                     SetTimeout ListenLoopCallback 10000]\<rparr>))"
      by blast
  qed
  have alone: "timers s = [] \<and> now s + 10000 \<le> t \<longrightarrow>
         listener (run_until t s') = Some (listenCalls s) \<and>
         handlers (run_until t s') (listenCalls s) = [RestartHandler] \<and>
         effects (run_until t s') = effects s' @ [ListenEvents (listenCalls s)] \<and>
         timers (run_until t s') = [] \<and>
         now (run_until t s') = t" for t
  proof
    assume q: "timers s = [] \<and> now s + 10000 \<le> t"
    then have one: "timers s' = [(now s + 10000, ListenLoopCallback)]"
      by (simp add: ti)
    from q have due: "now s + 10000 \<le> t"
      by simp
    show "listener (run_until t s') = Some (listenCalls s) \<and>
         handlers (run_until t s') (listenCalls s) = [RestartHandler] \<and>
         effects (run_until t s') = effects s' @ [ListenEvents (listenCalls s)] \<and>
         timers (run_until t s') = [] \<and>
         now (run_until t s') = t"
      using due
      by (simp add: run_until_single [OF one due] run_callback_def listenLoop_def
          listenEvents_def on_error_def lc nw)
  qed
  from em ef ti lc cnt quiet sup again alone show "\<exists>s'. emit_error e err s = Inr s' \<and>
      effects s' = effects s @
        [ConsoleError ''listen loop error, restarting in 10 seconds'' err,
         SetTimeout ListenLoopCallback 10000] \<and>
      timers s' = timers s @ [(now s + 10000, ListenLoopCallback)] \<and>
      listenCalls s' = listenCalls s \<and>
      (\<forall>t. listenCalls (run_until t s') =
            listenCalls (run_until t s) + (if now s + 10000 \<le> t then 1 else 0)) \<and>
      (\<forall>t. timers s = [] \<longrightarrow>
            listenCalls (run_until t s') =
            listenCalls s + (if now s + 10000 \<le> t then 1 else 0)) \<and>
      (\<forall>t. supervised (run_until t s')) \<and>
      (\<forall>t. now s + 10000 \<le> t \<longrightarrow>
         (\<exists>e'. listener (run_until t s') = Some e' \<and>
            e' \<noteq> e \<and> listenCalls s \<le> e' \<and>
            listenCalls (run_until t s') = Suc e' \<and>
            handlers (run_until t s') e' = [RestartHandler] \<and>
            (\<forall>err'. emit_error e' err' (run_until t s') =
               Inr ((run_until t s')
                 \<lparr>timers := timers (run_until t s') @
                    [(now (run_until t s') + 10000, ListenLoopCallback)],
                  effects := effects (run_until t s') @
                    [ConsoleError ''listen loop error, restarting in 10 seconds'' err',
                     SetTimeout ListenLoopCallback 10000]\<rparr>)))) \<and>
      (\<forall>t. timers s = [] \<and> now s + 10000 \<le> t \<longrightarrow>
         listener (run_until t s') = Some (listenCalls s) \<and>
         handlers (run_until t s') (listenCalls s) = [RestartHandler] \<and>
         effects (run_until t s') = effects s' @ [ListenEvents (listenCalls s)] \<and>
         timers (run_until t s') = [] \<and>
         now (run_until t s') = t)"
    by blast
qed

theorem listenLoop_restart_after_error_witness:
  "supervised (new_RtspSmartCamera Map.empty 0) \<and>
   listener (new_RtspSmartCamera Map.empty 0) = Some 0 \<and>
   listenCalls (new_RtspSmartCamera Map.empty 0) = 1 \<and>
   (\<exists>s'. emit_error 0 ''ECONNRESET'' (new_RtspSmartCamera Map.empty 0) = Inr s' \<and>
      listenCalls s' = 1 \<and>
      listenCalls (run_until 9999 s') = 1 \<and>
      listenCalls (run_until 10000 s') = 2 \<and>
      listenCalls (run_until 60000 s') = 2 \<and>
      supervised (run_until 10000 s') \<and>
      listener (run_until 10000 s') = Some 1 \<and>
      handlers (run_until 10000 s') 1 = [RestartHandler] \<and>
      effects (run_until 10000 s') =
        [ListenEvents 0,
         ConsoleError ''listen loop error, restarting in 10 seconds'' ''ECONNRESET'',
         SetTimeout ListenLoopCallback 10000,
         ListenEvents 1] \<and>
      (\<exists>s''. emit_error 1 ''ETIMEDOUT'' (run_until 10000 s') = Inr s'' \<and>
         timers s'' = [(20000, ListenLoopCallback)]))"
proof -
  have sup: "supervised (new_RtspSmartCamera Map.empty 0)"
    by (rule supervised_new)
  from listenLoop_restart_after_error
    [of "new_RtspSmartCamera Map.empty 0" 0 "''ECONNRESET''"] sup
  obtain s' where em: "emit_error 0 ''ECONNRESET'' (new_RtspSmartCamera Map.empty 0) = Inr s'"
    and ef: "effects s' = effects (new_RtspSmartCamera Map.empty 0) @
        [ConsoleError ''listen loop error, restarting in 10 seconds'' ''ECONNRESET'',
         SetTimeout ListenLoopCallback 10000]"
    and lc: "listenCalls s' = listenCalls (new_RtspSmartCamera Map.empty 0)"
    and cnt: "\<forall>t. timers (new_RtspSmartCamera Map.empty 0) = [] \<longrightarrow>
            listenCalls (run_until t s') =
            listenCalls (new_RtspSmartCamera Map.empty 0) +
            (if now (new_RtspSmartCamera Map.empty 0) + 10000 \<le> t then 1 else 0)"
    and su: "\<forall>t. supervised (run_until t s')"
    and again: "\<forall>t. now (new_RtspSmartCamera Map.empty 0) + 10000 \<le> t \<longrightarrow>
         (\<exists>e'. listener (run_until t s') = Some e' \<and>
            e' \<noteq> 0 \<and> listenCalls (new_RtspSmartCamera Map.empty 0) \<le> e' \<and>
            listenCalls (run_until t s') = Suc e' \<and>
            handlers (run_until t s') e' = [RestartHandler] \<and>
            (\<forall>err'. emit_error e' err' (run_until t s') =
               Inr ((run_until t s')
                 \<lparr>timers := timers (run_until t s') @
                    [(now (run_until t s') + 10000, ListenLoopCallback)],
                  effects := effects (run_until t s') @
                    [ConsoleError ''listen loop error, restarting in 10 seconds'' err',
                     SetTimeout ListenLoopCallback 10000]\<rparr>)))"
    and alone: "\<forall>t. timers (new_RtspSmartCamera Map.empty 0) = [] \<and>
           now (new_RtspSmartCamera Map.empty 0) + 10000 \<le> t \<longrightarrow>
         listener (run_until t s') = Some (listenCalls (new_RtspSmartCamera Map.empty 0)) \<and>
         handlers (run_until t s') (listenCalls (new_RtspSmartCamera Map.empty 0)) =
           [RestartHandler] \<and>
         effects (run_until t s') =
           effects s' @ [ListenEvents (listenCalls (new_RtspSmartCamera Map.empty 0))] \<and>
         timers (run_until t s') = [] \<and>
         now (run_until t s') = t"
    by (auto simp: new_camera_fields)
  from cnt have c: "listenCalls (run_until t s') = 1 + (if 10000 \<le> t then 1 else 0)" for t
    by (simp add: new_camera_fields)
  from alone have r: "listener (run_until 10000 s') = Some 1"
    "handlers (run_until 10000 s') 1 = [RestartHandler]"
    "effects (run_until 10000 s') = effects s' @ [ListenEvents 1]"
    "timers (run_until 10000 s') = []"
    "now (run_until 10000 s') = 10000"
    by (simp_all add: new_camera_fields)
  from again r(1) have "emit_error 1 ''ETIMEDOUT'' (run_until 10000 s') =
      Inr ((run_until 10000 s')
        \<lparr>timers := timers (run_until 10000 s') @
             [(now (run_until 10000 s') + 10000, ListenLoopCallback)],
         effects := effects (run_until 10000 s') @
             [ConsoleError ''listen loop error, restarting in 10 seconds'' ''ETIMEDOUT'',
              SetTimeout ListenLoopCallback 10000]\<rparr>)"
    by (auto simp: new_camera_fields)
  then have nxt: "\<exists>s''. emit_error 1 ''ETIMEDOUT'' (run_until 10000 s') = Inr s'' \<and>
         timers s'' = [(20000, ListenLoopCallback)]"
    by (simp add: r)
  from sup em lc c [of 9999] c [of 10000] c [of 60000] su r ef nxt show ?thesis
    by (simp add: new_camera_fields)
qed

text \<open>
  C3 (as amended). On a smart adapter whose subscription is supervised (every adapter is,
  from its construction on), \<^verbatim>\<open>putSetting(key, value)\<close> first writes the text of the value
  under the key, then signals the active listener with the error \<^verbatim>\<open>new settings\<close>; the
  handler logs it and schedules \<^verbatim>\<open>listenLoop\<close> with a delay of 10000 ms. No call of
  \<^verbatim>\<open>listenEvents()\<close> happens in the turn of \<^verbatim>\<open>putSetting\<close>, nor in the next turn of the
  event loop, nor at any time less than 10 seconds later; from 10 seconds on there is
  exactly one call more than there would be without the \<^verbatim>\<open>putSetting\<close>. The adapter stays
  supervised throughout.
\<close>

theorem smart_putSetting_restart:
  "supervised s \<longrightarrow>
   (\<exists>s'. RtspSmartCamera_putSetting numberToString key v s = Inr s' \<and>
      storage s' = (storage s)(key \<mapsto> toString numberToString v) \<and>
      effects s' = effects s @
        [SetItem key (toString numberToString v),
         ConsoleError ''listen loop error, restarting in 10 seconds'' ''new settings'',
         SetTimeout ListenLoopCallback 10000] \<and>
      timers s' = timers s @ [(now s + 10000, ListenLoopCallback)] \<and>
      listenCalls s' = listenCalls s \<and>
      (\<forall>t. listenCalls (run_until t s') =
            listenCalls (run_until t s) + (if now s + 10000 \<le> t then 1 else 0)) \<and>
      (\<forall>t. timers s = [] \<longrightarrow>
            listenCalls (run_until t s') =
            listenCalls s + (if now s + 10000 \<le> t then 1 else 0)) \<and>
      (timers s = [] \<longrightarrow> listenCalls (next_turn s') = listenCalls s) \<and>
      (\<forall>t. supervised (run_until t s')))"
proof
  assume a: "supervised s"
  define s' where "s' = s\<lparr>storage := (storage s)(key \<mapsto> toString numberToString v),
            timers := timers s @ [(now s + 10000, ListenLoopCallback)],
            effects := effects s @
              [SetItem key (toString numberToString v),
               ConsoleError ''listen loop error, restarting in 10 seconds'' ''new settings'',
               SetTimeout ListenLoopCallback 10000]\<rparr>"
  have put: "RtspSmartCamera_putSetting numberToString key v s = Inr s'"
    using a by (simp add: putSetting_supervised s'_def)
  have st: "storage s' = (storage s)(key \<mapsto> toString numberToString v)"
    by (simp add: s'_def)
  have ef: "effects s' = effects s @
        [SetItem key (toString numberToString v),
         ConsoleError ''listen loop error, restarting in 10 seconds'' ''new settings'',
         SetTimeout ListenLoopCallback 10000]"
    by (simp add: s'_def)
  have ti: "timers s' = timers s @ [(now s + 10000, ListenLoopCallback)]"
    by (simp add: s'_def)
  have lc: "listenCalls s' = listenCalls s"
    by (simp add: s'_def)
  have nw: "now s' = now s"
    by (simp add: s'_def)
  have cnt: "listenCalls (run_until t s') =
            listenCalls (run_until t s) + (if now s + 10000 \<le> t then 1 else 0)" for t
    by (simp add: listenCalls_run_until ti lc due_by_append due_by_single)
  have quiet: "timers s = [] \<longrightarrow>
            listenCalls (run_until t s') =
            listenCalls s + (if now s + 10000 \<le> t then 1 else 0)" for t
    by (simp add: listenCalls_run_until ti lc due_by_append due_by_single due_by_Nil)
  have turn: "timers s = [] \<longrightarrow> listenCalls (next_turn s') = listenCalls s"
    by (simp add: next_turn_def listenCalls_run_until ti lc nw due_by_append due_by_single
        due_by_Nil)
  have "supervised s'"
    using a by (simp add: s'_def supervised_def split: option.splits)
  then have sup: "supervised (run_until t s')" for t
    by (rule supervised_run_until)
  from put st ef ti lc cnt quiet turn sup
  show "\<exists>s'. RtspSmartCamera_putSetting numberToString key v s = Inr s' \<and>
      storage s' = (storage s)(key \<mapsto> toString numberToString v) \<and>
      effects s' = effects s @
        [SetItem key (toString numberToString v),
         ConsoleError ''listen loop error, restarting in 10 seconds'' ''new settings'',
         SetTimeout ListenLoopCallback 10000] \<and>
      timers s' = timers s @ [(now s + 10000, ListenLoopCallback)] \<and>
      listenCalls s' = listenCalls s \<and>
      (\<forall>t. listenCalls (run_until t s') =
            listenCalls (run_until t s) + (if now s + 10000 \<le> t then 1 else 0)) \<and>
      (\<forall>t. timers s = [] \<longrightarrow>
            listenCalls (run_until t s') =
            listenCalls s + (if now s + 10000 \<le> t then 1 else 0)) \<and>
      (timers s = [] \<longrightarrow> listenCalls (next_turn s') = listenCalls s) \<and>
      (\<forall>t. supervised (run_until t s'))"
    by blast
qed

theorem smart_putSetting_restart_witness:
  "supervised (new_RtspSmartCamera Map.empty 0) \<and>
   listenCalls (new_RtspSmartCamera Map.empty 0) = 1 \<and>
   (\<exists>s'. RtspSmartCamera_putSetting (\<lambda>n::nat. ''0'') ''ip'' (StringValue ''10.0.0.5'')
           (new_RtspSmartCamera Map.empty 0) = Inr s' \<and>
      storage s' ''ip'' = Some ''10.0.0.5'' \<and>
      listenCalls s' = 1 \<and>
      listenCalls (next_turn s') = 1 \<and>
      listenCalls (run_until 9999 s') = 1 \<and>
      listenCalls (run_until 10000 s') = 2 \<and>
      listenCalls (run_until 60000 s') = 2)"
proof -
  have sup: "supervised (new_RtspSmartCamera Map.empty 0)"
    by (rule supervised_new)
  from smart_putSetting_restart
    [of "new_RtspSmartCamera Map.empty 0" "\<lambda>n::nat. ''0''" "''ip''" "StringValue ''10.0.0.5''"]
    sup
  obtain s' where put: "RtspSmartCamera_putSetting (\<lambda>n::nat. ''0'') ''ip''
        (StringValue ''10.0.0.5'') (new_RtspSmartCamera Map.empty 0) = Inr s'"
    and st: "storage s' = (storage (new_RtspSmartCamera Map.empty 0))
        (''ip'' \<mapsto> toString (\<lambda>n::nat. ''0'') (StringValue ''10.0.0.5''))"
    and lc: "listenCalls s' = listenCalls (new_RtspSmartCamera Map.empty 0)"
    and cnt: "\<forall>t. timers (new_RtspSmartCamera Map.empty 0) = [] \<longrightarrow>
            listenCalls (run_until t s') =
            listenCalls (new_RtspSmartCamera Map.empty 0) +
            (if now (new_RtspSmartCamera Map.empty 0) + 10000 \<le> t then 1 else 0)"
    and turn: "timers (new_RtspSmartCamera Map.empty 0) = [] \<longrightarrow>
            listenCalls (next_turn s') = listenCalls (new_RtspSmartCamera Map.empty 0)"
    by (auto simp: new_camera_fields)
  from cnt have c: "listenCalls (run_until t s') = 1 + (if 10000 \<le> t then 1 else 0)" for t
    by (simp add: new_camera_fields)
  from st have st': "storage s' ''ip'' = Some ''10.0.0.5''"
    by (simp add: toString_def)
  from turn have t': "listenCalls (next_turn s') = 1"
    by (simp add: new_camera_fields)
  from sup put st' lc t' c [of 9999] c [of 10000] c [of 60000] show ?thesis
    by (simp add: new_camera_fields)
qed

text \<open>
  The claim as first stated fails: after \<^verbatim>\<open>putSetting('ip', '10.0.0.5')\<close> on a newly
  constructed adapter, \<^verbatim>\<open>listenEvents()\<close> has been called once more neither when
  \<^verbatim>\<open>putSetting\<close> returns, nor after the next turn of the event loop, nor 9999 ms later.
\<close>

theorem smart_putSetting_not_prompt:
  "\<not> (\<exists>s'. RtspSmartCamera_putSetting (\<lambda>n::nat. ''0'') ''ip'' (StringValue ''10.0.0.5'')
              (new_RtspSmartCamera Map.empty 0) = Inr s' \<and>
           (listenCalls s' = Suc (listenCalls (new_RtspSmartCamera Map.empty 0)) \<or>
            listenCalls (next_turn s') = Suc (listenCalls (new_RtspSmartCamera Map.empty 0)) \<or>
            listenCalls (run_until 9999 s') = Suc (listenCalls (new_RtspSmartCamera Map.empty 0))))"
proof
  assume "\<exists>s'. RtspSmartCamera_putSetting (\<lambda>n::nat. ''0'') ''ip'' (StringValue ''10.0.0.5'')
              (new_RtspSmartCamera Map.empty 0) = Inr s' \<and>
           (listenCalls s' = Suc (listenCalls (new_RtspSmartCamera Map.empty 0)) \<or>
            listenCalls (next_turn s') = Suc (listenCalls (new_RtspSmartCamera Map.empty 0)) \<or>
            listenCalls (run_until 9999 s') = Suc (listenCalls (new_RtspSmartCamera Map.empty 0)))"
  then obtain s' where put: "RtspSmartCamera_putSetting (\<lambda>n::nat. ''0'') ''ip''
        (StringValue ''10.0.0.5'') (new_RtspSmartCamera Map.empty 0) = Inr s'"
    and more: "listenCalls s' = Suc (listenCalls (new_RtspSmartCamera Map.empty 0)) \<or>
            listenCalls (next_turn s') = Suc (listenCalls (new_RtspSmartCamera Map.empty 0)) \<or>
            listenCalls (run_until 9999 s') = Suc (listenCalls (new_RtspSmartCamera Map.empty 0))"
    by blast
  have s': "s' = (new_RtspSmartCamera Map.empty 0)
      \<lparr>storage := (storage (new_RtspSmartCamera Map.empty 0))
                    (''ip'' \<mapsto> toString (\<lambda>n::nat. ''0'') (StringValue ''10.0.0.5'')),
       timers := timers (new_RtspSmartCamera Map.empty 0) @ [(now (new_RtspSmartCamera Map.empty 0) + 10000, ListenLoopCallback)],
       effects := effects (new_RtspSmartCamera Map.empty 0) @
              [SetItem ''ip'' (toString (\<lambda>n::nat. ''0'') (StringValue ''10.0.0.5'')),
               ConsoleError ''listen loop error, restarting in 10 seconds'' ''new settings'',
               SetTimeout ListenLoopCallback 10000]\<rparr>"
    using put putSetting_supervised [OF supervised_new, of "\<lambda>n::nat. ''0''" "''ip''"
        "StringValue ''10.0.0.5''" Map.empty 0]
    by simp
  have same: "listenCalls s' = 1"
    by (simp add: s' new_camera_fields)
  have nxt: "listenCalls (next_turn s') = 1"
    by (simp add: next_turn_def listenCalls_run_until s' new_camera_fields due_by_def)
  have later: "listenCalls (run_until 9999 s') = 1"
    by (simp add: listenCalls_run_until s' new_camera_fields due_by_def)
  from more same nxt later show False
    by (simp add: new_camera_fields)
qed

section \<open>Properties of the provider\<close>

lemma discovered_ids_append:
  "discovered_ids (xs @ ys) = discovered_ids xs @ discovered_ids ys"
  by (induction xs rule: discovered_ids.induct) simp_all

lemma putSetting_fields:
  "host (RtspProvider_putSetting random numberToString additional key v p) =
     host p @
       [OnDeviceDiscovered
          \<lparr>nativeId = random (draws p), name = toString numberToString v,
           interfaces = VideoCamera # Settings # additional, deviceType = Camera\<rparr>,
        LogAlert (''New Camera '' @ toString numberToString v @
                  '' ready. Check the notification area to complete setup.''),
        LogClearAlert (''New Camera '' @ toString numberToString v @
                  '' ready. Check the notification area to complete setup.'')]"
  "draws (RtspProvider_putSetting random numberToString additional key v p) = Suc (draws p)"
  "devices (RtspProvider_putSetting random numberToString additional key v p) = devices p"
  "heap (RtspProvider_putSetting random numberToString additional key v p) = heap p"
  by (simp_all add: RtspProvider_putSetting_def onDeviceDiscovered_def log_a_def
      log_clearAlert_def Let_def)

lemma getDevice_cached: "devices p nid = Some r \<Longrightarrow> getDevice nid p = (Some r, p)"
  by (simp add: getDevice_def)

lemma getDevice_created:
  "devices p nid = None \<Longrightarrow>
   getDevice nid p =
     (Some (length (heap p)),
      p\<lparr>heap := heap p @ [RtspCameraObject nid],
        devices := (devices p)(nid \<mapsto> length (heap p))\<rparr>)"
  by (simp add: getDevice_def createCamera_def)

lemma getDevice_keeps: "devices p nid = Some r \<Longrightarrow> devices (snd (getDevice nid' p)) nid = Some r"
  by (cases "devices p nid'") (auto simp: getDevice_created getDevice_cached)

lemma run_call_keeps:
  "devices p nid = Some r \<Longrightarrow>
   devices (run_call random numberToString additional p c) nid = Some r"
  by (cases c) (simp_all add: getDevice_keeps putSetting_fields)

lemma run_calls_keeps:
  "devices p nid = Some r \<Longrightarrow>
   devices (run_calls random numberToString additional calls p) nid = Some r"
  unfolding run_calls_def
  by (induction calls arbitrary: p) (simp_all add: run_call_keeps)

text \<open>
  C8. For every identifier and every state of the provider, \<^verbatim>\<open>getDevice(id)\<close> returns an
  adapter instance, and a second call returns the same reference and changes nothing. When
  the identifier was not registered, the first call creates the adapter, a new object
  distinct from every registered one, and caches it. After any further calls on the
  provider (\<^verbatim>\<open>getDevice\<close> with any identifiers, \<^verbatim>\<open>putSetting\<close>), \<^verbatim>\<open>getDevice(id)\<close> still
  returns that same reference.
\<close>

theorem getDevice_same_instance:
  "\<exists>r p1. getDevice nid p = (Some r, p1) \<and>
      getDevice nid p1 = (Some r, p1) \<and>
      devices p1 nid = Some r \<and>
      (devices p nid = None \<longrightarrow>
         r = length (heap p) \<and> heap p1 = heap p @ [RtspCameraObject nid] \<and>
         (registry_ok p \<longrightarrow> r \<notin> ran (devices p))) \<and>
      (\<forall>calls. fst (getDevice nid (run_calls random numberToString additional calls p1)) = Some r)"
proof (cases "devices p nid")
  case None
  define p1 where "p1 = p\<lparr>heap := heap p @ [RtspCameraObject nid],
        devices := (devices p)(nid \<mapsto> length (heap p))\<rparr>"
  have first: "getDevice nid p = (Some (length (heap p)), p1)"
    using None by (simp add: getDevice_created p1_def)
  have cached: "devices p1 nid = Some (length (heap p))"
    by (simp add: p1_def)
  then have second: "getDevice nid p1 = (Some (length (heap p)), p1)"
    by (rule getDevice_cached)
  have hp: "heap p1 = heap p @ [RtspCameraObject nid]"
    by (simp add: p1_def)
  have fresh: "registry_ok p \<longrightarrow> length (heap p) \<notin> ran (devices p)"
    by (auto simp: registry_ok_def)
  have later: "fst (getDevice nid (run_calls random numberToString additional calls p1)) =
      Some (length (heap p))" for calls
  proof -
    have "devices (run_calls random numberToString additional calls p1) nid =
        Some (length (heap p))"
      using cached by (rule run_calls_keeps)
    then show ?thesis
      by (simp add: getDevice_cached)
  qed
  from first second cached hp fresh later show ?thesis
    by blast
next
  case (Some r)
  have first: "getDevice nid p = (Some r, p)"
    using Some by (rule getDevice_cached)
  have later: "fst (getDevice nid (run_calls random numberToString additional calls p)) = Some r"
    for calls
  proof -
    have "devices (run_calls random numberToString additional calls p) nid = Some r"
      using Some by (rule run_calls_keeps)
    then show ?thesis
      by (simp add: getDevice_cached)
  qed
  from first Some later show ?thesis
    by auto
qed

theorem getDevice_same_instance_witness:
  "registry_ok (new_RtspProvider []) \<and>
   devices (new_RtspProvider []) ''cam1'' = None \<and>
   (\<exists>p1. getDevice ''cam1'' (new_RtspProvider []) = (Some 0, p1) \<and>
      getDevice ''cam1'' p1 = (Some 0, p1) \<and>
      fst (getDevice ''cam2'' p1) = Some 1 \<and>
      fst (getDevice ''cam1''
             (run_calls (\<lambda>n. ''0.5'') (\<lambda>n::nat. ''0'') []
                [GetDevice ''cam2'', PutSetting ''new-camera'' (StringValue ''Back Yard''),
                 GetDevice ''cam1''] p1)) = Some 0)"
proof -
  have ok: "registry_ok (new_RtspProvider [])"
    by (simp add: registry_ok_def new_RtspProvider_def)
  have none: "devices (new_RtspProvider []) ''cam1'' = None"
    by (simp add: new_RtspProvider_def)
  have hp: "heap (new_RtspProvider []) = []"
    by (simp add: new_RtspProvider_def)
  from getDevice_same_instance
    [of "''cam1''" "new_RtspProvider []" "\<lambda>n. ''0.5''" "\<lambda>n::nat. ''0''" "[]"] none hp
  obtain p1 where first: "getDevice ''cam1'' (new_RtspProvider []) = (Some 0, p1)"
    and second: "getDevice ''cam1'' p1 = (Some 0, p1)"
    and later: "\<forall>calls. fst (getDevice ''cam1''
        (run_calls (\<lambda>n. ''0.5'') (\<lambda>n::nat. ''0'') [] calls p1)) = Some 0"
    by auto
  have "getDevice ''cam1'' (new_RtspProvider []) =
      (Some 0, (new_RtspProvider [])\<lparr>heap := [RtspCameraObject ''cam1''],
        devices := [''cam1'' \<mapsto> 0]\<rparr>)"
    by (simp add: getDevice_created [OF none] hp) (simp add: new_RtspProvider_def)
  with first have p1: "p1 = (new_RtspProvider [])\<lparr>heap := [RtspCameraObject ''cam1''],
        devices := [''cam1'' \<mapsto> 0]\<rparr>"
    by simp
  have other: "fst (getDevice ''cam2'' p1) = Some 1"
    by (simp add: p1 getDevice_def createCamera_def)
  from ok none first second other later show ?thesis
    by blast
qed

text \<open>
  C7 (as amended). For every key and value, \<^verbatim>\<open>putSetting(key, value)\<close> of the provider
  does not depend on the key. It makes exactly three calls to the host: one discovery
  notification whose name is the text of the value, whose interfaces are VideoCamera and
  Settings followed by the additional interfaces, whose type is Camera and whose
  identifier is the text of a new \<^verbatim>\<open>Math.random()\<close> draw; then the alert; then the clearing of
  that same alert. The registry is untouched. The identifier differs from every
  identifier announced before whenever the random source never repeats a text and all
  earlier identifiers came from its earlier draws; nothing in the code checks it.
\<close>

theorem provider_putSetting_discovers:
  "host (RtspProvider_putSetting random numberToString additional key v p) =
     host p @
       [OnDeviceDiscovered
          \<lparr>nativeId = random (draws p), name = toString numberToString v,
           interfaces = VideoCamera # Settings # additional, deviceType = Camera\<rparr>,
        LogAlert (''New Camera '' @ toString numberToString v @
                  '' ready. Check the notification area to complete setup.''),
        LogClearAlert (''New Camera '' @ toString numberToString v @
                  '' ready. Check the notification area to complete setup.'')] \<and>
   RtspProvider_putSetting random numberToString additional key v p =
     RtspProvider_putSetting random numberToString additional key' v p \<and>
   devices (RtspProvider_putSetting random numberToString additional key v p) = devices p \<and>
   draws (RtspProvider_putSetting random numberToString additional key v p) = Suc (draws p) \<and>
   (inj random \<and> discovered_ids (host p) = map random [0..<draws p] \<longrightarrow>
      random (draws p) \<notin> set (discovered_ids (host p)) \<and>
      discovered_ids (host (RtspProvider_putSetting random numberToString additional key v p)) =
        map random [0..<Suc (draws p)])"
proof -
  have key: "RtspProvider_putSetting random numberToString additional key v p =
     RtspProvider_putSetting random numberToString additional key' v p"
    by (simp add: RtspProvider_putSetting_def)
  have fresh: "random (draws p) \<notin> set (discovered_ids (host p))"
    if "inj random" and "discovered_ids (host p) = map random [0..<draws p]"
    using that by (auto simp: inj_eq)
  have ids: "discovered_ids (host (RtspProvider_putSetting random numberToString additional key v p)) =
        map random [0..<Suc (draws p)]"
    if "discovered_ids (host p) = map random [0..<draws p]"
    using that by (simp add: putSetting_fields discovered_ids_append)
  from key fresh ids show ?thesis
    by (simp add: putSetting_fields)
qed

theorem provider_putSetting_discovers_witness:
  "inj (\<lambda>n. ''0.'' @ replicate (Suc n) CHR ''1'') \<and>
   discovered_ids (host
     (RtspProvider_putSetting (\<lambda>n. ''0.'' @ replicate (Suc n) CHR ''1'') (\<lambda>n::nat. ''0'')
        getAdditionalInterfaces ''new-camera'' (StringValue ''Front Door'')
        (new_RtspProvider []))) = [''0.1''] \<and>
   host
     (RtspProvider_putSetting (\<lambda>n. ''0.'' @ replicate (Suc n) CHR ''1'') (\<lambda>n::nat. ''0'')
        getAdditionalInterfaces ''anything'' (StringValue ''Back Yard'')
        (RtspProvider_putSetting (\<lambda>n. ''0.'' @ replicate (Suc n) CHR ''1'') (\<lambda>n::nat. ''0'')
           getAdditionalInterfaces ''new-camera'' (StringValue ''Front Door'')
           (new_RtspProvider []))) =
     host
       (RtspProvider_putSetting (\<lambda>n. ''0.'' @ replicate (Suc n) CHR ''1'') (\<lambda>n::nat. ''0'')
          getAdditionalInterfaces ''new-camera'' (StringValue ''Front Door'')
          (new_RtspProvider [])) @
     [OnDeviceDiscovered
        \<lparr>nativeId = ''0.11'', name = ''Back Yard'',
         interfaces = [VideoCamera, Settings], deviceType = Camera\<rparr>,
      LogAlert ''New Camera Back Yard ready. Check the notification area to complete setup.'',
      LogClearAlert ''New Camera Back Yard ready. Check the notification area to complete setup.''] \<and>
   ''0.11'' \<notin> set (discovered_ids (host
     (RtspProvider_putSetting (\<lambda>n. ''0.'' @ replicate (Suc n) CHR ''1'') (\<lambda>n::nat. ''0'')
        getAdditionalInterfaces ''new-camera'' (StringValue ''Front Door'')
        (new_RtspProvider []))))"
proof -
  define R :: "nat \<Rightarrow> string" where "R = (\<lambda>n. ''0.'' @ replicate (Suc n) CHR ''1'')"
  define p where "p = RtspProvider_putSetting R (\<lambda>n::nat. ''0'')
        getAdditionalInterfaces ''new-camera'' (StringValue ''Front Door'') (new_RtspProvider [])"
  have inj: "inj R"
    by (simp add: inj_def R_def)
  have dr: "draws p = 1"
    by (simp add: p_def putSetting_fields new_RtspProvider_def)
  have ids: "discovered_ids (host p) = [''0.1'']"
    by (simp add: p_def putSetting_fields new_RtspProvider_def R_def)
  have pre: "discovered_ids (host p) = map R [0..<draws p]"
    by (simp add: ids dr R_def)
  from provider_putSetting_discovers
    [of R "\<lambda>n::nat. ''0''" getAdditionalInterfaces "''anything''" "StringValue ''Back Yard''" p]
    inj pre
  have h: "host (RtspProvider_putSetting R (\<lambda>n::nat. ''0'') getAdditionalInterfaces
        ''anything'' (StringValue ''Back Yard'') p) =
      host p @
      [OnDeviceDiscovered
        \<lparr>nativeId = ''0.11'', name = ''Back Yard'',
         interfaces = [VideoCamera, Settings], deviceType = Camera\<rparr>,
      LogAlert ''New Camera Back Yard ready. Check the notification area to complete setup.'',
      LogClearAlert ''New Camera Back Yard ready. Check the notification area to complete setup.'']"
    and f: "R (draws p) \<notin> set (discovered_ids (host p))"
    by (simp_all add: dr R_def toString_def getAdditionalInterfaces_def)
  from f have f': "''0.11'' \<notin> set (discovered_ids (host p))"
    by (simp add: dr R_def)
  from inj ids h f' show ?thesis
    unfolding p_def R_def by blast
qed

text \<open>
  The claim as first stated fails: with a random source whose third draw repeats the
  first (0.25, 0.75, 0.25), the third camera is announced under the identifier of the
  first.
\<close>

theorem provider_putSetting_repeats_id:
  "discovered_ids (host
     (RtspProvider_putSetting (\<lambda>n. if n = 1 then ''0.75'' else ''0.25'') (\<lambda>n::nat. ''0'')
        getAdditionalInterfaces ''new-camera'' (StringValue ''Garage'')
        (RtspProvider_putSetting (\<lambda>n. if n = 1 then ''0.75'' else ''0.25'') (\<lambda>n::nat. ''0'')
           getAdditionalInterfaces ''new-camera'' (StringValue ''Back Yard'')
           (RtspProvider_putSetting (\<lambda>n. if n = 1 then ''0.75'' else ''0.25'') (\<lambda>n::nat. ''0'')
              getAdditionalInterfaces ''new-camera'' (StringValue ''Front Door'')
              (new_RtspProvider []))))) = [''0.25'', ''0.75'', ''0.25''] \<and>
   \<not> distinct (discovered_ids (host
     (RtspProvider_putSetting (\<lambda>n. if n = 1 then ''0.75'' else ''0.25'') (\<lambda>n::nat. ''0'')
        getAdditionalInterfaces ''new-camera'' (StringValue ''Garage'')
        (RtspProvider_putSetting (\<lambda>n. if n = 1 then ''0.75'' else ''0.25'') (\<lambda>n::nat. ''0'')
           getAdditionalInterfaces ''new-camera'' (StringValue ''Back Yard'')
           (RtspProvider_putSetting (\<lambda>n. if n = 1 then ''0.75'' else ''0.25'') (\<lambda>n::nat. ''0'')
              getAdditionalInterfaces ''new-camera'' (StringValue ''Front Door'')
              (new_RtspProvider []))))))"
  by (simp add: putSetting_fields discovered_ids_append new_RtspProvider_def)

end
